theory Spec2Isabelle
  imports Main "HOL-Library.Word"
begin

unbundle bit_operations_syntax

section \<open>Values\<close>

text \<open>
  The searches start their running extremum at \<^verbatim>\<open>-math.inf\<close> or \<^verbatim>\<open>math.inf\<close> and
  afterwards compare it with the integers the game produces. A value is therefore an
  integer or one of the two infinities, ordered as Python orders them.
\<close>

datatype val = NegInf | Fin int | PosInf

instantiation val :: linorder
begin

fun less_eq_val :: "val \<Rightarrow> val \<Rightarrow> bool" where
  "less_eq_val NegInf _ = True"
| "less_eq_val (Fin a) NegInf = False"
| "less_eq_val (Fin a) (Fin b) = (a \<le> b)"
| "less_eq_val (Fin a) PosInf = True"
| "less_eq_val PosInf PosInf = True"
| "less_eq_val PosInf _ = False"

definition less_val :: "val \<Rightarrow> val \<Rightarrow> bool" where
  "less_val x y = (x \<le> y \<and> \<not> y \<le> x)"

instance
proof
  fix x y z :: val
  show "(x < y) = (x \<le> y \<and> \<not> y \<le> x)"
    by (simp add: less_val_def)
  show "x \<le> x"
    by (cases x) simp_all
  show "x \<le> y \<Longrightarrow> y \<le> z \<Longrightarrow> x \<le> z"
    by (cases x; cases y; cases z) simp_all
  show "x \<le> y \<Longrightarrow> y \<le> x \<Longrightarrow> x = y"
    by (cases x; cases y) simp_all
  show "x \<le> y \<or> y \<le> x"
    by (cases x; cases y) auto
qed

end

section \<open>The number game (464 Can I Win, alpha-beta)\<close>

text \<open>
  \<^verbatim>\<open>self.dp\<close> is a Python list of length \<^verbatim>\<open>allUsed + 1\<close> whose cells are \<^verbatim>\<open>None\<close> or a
  value. It is modelled by its cells, a map from the index to the value; the length never
  changes after \<^verbatim>\<open>canIWin\<close> built the list, so an index is out of range exactly when it
  is greater than \<^verbatim>\<open>allUsed\<close>, and reading there raises IndexError: the result \<open>None\<close>
  of the functions below.
\<close>

type_synonym memo = "nat \<Rightarrow> val option"

text \<open>\<^verbatim>\<open>for i in range(1, n + 1): allUsed = 1 << i | allUsed\<close>\<close>

definition allUsed :: "nat \<Rightarrow> nat" where
  "allUsed n = fold (\<lambda>i acc. push_bit i 1 OR acc) [1..<n + 1] 0"

text \<open>\<^verbatim>\<open>[None] * (allUsed + 1)\<close>\<close>

definition init_dp :: memo where
  "init_dp = (\<lambda>_. None)"

text \<open>
  The number of integers of \<open>lo..n\<close> that a status leaves unused. The game picks from
  \<open>1..n\<close>; the count from 0 is the measure of the recursion below, which is defined for
  every loop index.
\<close>

definition unused_from :: "nat \<Rightarrow> nat \<Rightarrow> nat \<Rightarrow> nat" where
  "unused_from lo n status = length (filter (\<lambda>i. \<not> bit status i) [lo..<n + 1])"

abbreviation unused :: "nat \<Rightarrow> nat \<Rightarrow> nat" where
  "unused n status \<equiv> unused_from 1 n status"

lemma drop_bit_and_one_iff: "(drop_bit i (s::nat) AND 1 = 0) = (\<not> bit s i)"
  by (simp add: and_one_eq bit_iff_odd_drop_bit even_iff_mod_2_eq_zero)

lemma bit_new_status: "bit (push_bit i 1 OR (s::nat)) j = (j = i \<or> bit s j)"
  by (auto simp add: bit_or_iff bit_push_bit_iff bit_1_iff bit_exp_iff)

lemma unused_from_less:
  assumes "lo \<le> i" "i \<le> n" "\<not> bit status i"
  shows "unused_from lo n (push_bit i 1 OR status) < unused_from lo n status"
proof -
  let ?P = "\<lambda>j. \<not> bit (push_bit i 1 OR status) j"
  let ?ys = "filter (\<lambda>j. \<not> bit status j) [lo..<n + 1]"
  have i_in: "i \<in> set ?ys"
    using assms unfolding set_filter set_upt by auto
  have "\<not> ?P i"
    by (simp only: bit_new_status) simp
  with i_in have "length (filter ?P ?ys) < length ?ys"
    by (rule length_filter_less)
  moreover have "filter ?P ?ys = filter ?P [lo..<n + 1]"
    unfolding filter_filter by (rule filter_cong) (auto simp only: bit_new_status)
  ultimately show ?thesis
    by (simp only: unused_from_def)
qed

lemma unused_from_step:
  "\<not> n < i \<Longrightarrow> \<not> drop_bit i status AND 1 \<noteq> 0 \<Longrightarrow>
   unused_from 0 n (push_bit i 1 OR status) < unused_from 0 n status"
  using unused_from_less[of 0 i n status] by (simp only: drop_bit_and_one_iff) simp

text \<open>
  \<^verbatim>\<open>minimax\<close> with its two \<^verbatim>\<open>for\<close> loops; \<open>max_loop\<close> and \<open>min_loop\<close> are the loops at
  the index \<open>i\<close>, with the running \<open>value\<close>, \<open>alpha\<close>, \<open>beta\<close> and the memo table.
  The result is the returned value with the table as the call left it.
\<close>

function minimax :: "nat \<Rightarrow> int \<Rightarrow> nat \<Rightarrow> int \<Rightarrow> bool \<Rightarrow> val \<Rightarrow> val \<Rightarrow> memo \<Rightarrow> (val \<times> memo) option"
  and max_loop :: "nat \<Rightarrow> int \<Rightarrow> nat \<Rightarrow> int \<Rightarrow> nat \<Rightarrow> val \<Rightarrow> val \<Rightarrow> val \<Rightarrow> memo \<Rightarrow> (val \<times> memo) option"
  and min_loop :: "nat \<Rightarrow> int \<Rightarrow> nat \<Rightarrow> int \<Rightarrow> nat \<Rightarrow> val \<Rightarrow> val \<Rightarrow> val \<Rightarrow> memo \<Rightarrow> (val \<times> memo) option"
  where
  "minimax n dt status currentTotal isMaxPlayer alpha beta dp =
     (if allUsed n < status then None
      else case dp status of
        Some v \<Rightarrow> Some (v, dp)
      | None \<Rightarrow>
          if status = allUsed n then Some (Fin 0, dp)
          else if isMaxPlayer then max_loop n dt status currentTotal 1 NegInf alpha beta dp
          else min_loop n dt status currentTotal 1 PosInf alpha beta dp)"
| "max_loop n dt status currentTotal i value alpha beta dp =
     (if n < i then Some (value, dp(status \<mapsto> value))
      else if drop_bit i status AND 1 \<noteq> 0
        then max_loop n dt status currentTotal (i + 1) value alpha beta dp
      else if dt \<le> currentTotal + int i then Some (Fin 1, dp(status \<mapsto> Fin 1))
      else case minimax n dt (push_bit i 1 OR status) (currentTotal + int i) False alpha beta dp of
        None \<Rightarrow> None
      | Some (r, dp') \<Rightarrow>
          if beta \<le> max alpha (max value r)
          then Some (max value r, dp'(status \<mapsto> max value r))
          else max_loop n dt status currentTotal (i + 1) (max value r)
                 (max alpha (max value r)) beta dp')"
| "min_loop n dt status currentTotal i value alpha beta dp =
     (if n < i then Some (value, dp(status \<mapsto> value))
      else if drop_bit i status AND 1 \<noteq> 0
        then min_loop n dt status currentTotal (i + 1) value alpha beta dp
      else if dt \<le> currentTotal + int i then Some (Fin (- 1), dp(status \<mapsto> Fin (- 1)))
      else case minimax n dt (push_bit i 1 OR status) (currentTotal + int i) True alpha beta dp of
        None \<Rightarrow> None
      | Some (r, dp') \<Rightarrow>
          if min beta (min value r) \<le> alpha
          then Some (min value r, dp'(status \<mapsto> min value r))
          else min_loop n dt status currentTotal (i + 1) (min value r)
                 alpha (min beta (min value r)) dp')"
  by pat_completeness auto

termination
proof (relation "measures
    [\<lambda>x. case x of
        Inl (n, dt, status, t, b, al, be, dp) \<Rightarrow> unused_from 0 n status
      | Inr (Inl (n, dt, status, t, i, v, al, be, dp)) \<Rightarrow> unused_from 0 n status
      | Inr (Inr (n, dt, status, t, i, v, al, be, dp)) \<Rightarrow> unused_from 0 n status,
     \<lambda>x. case x of
        Inl (n, dt, status, t, b, al, be, dp) \<Rightarrow> n + 2
      | Inr (Inl (n, dt, status, t, i, v, al, be, dp)) \<Rightarrow> n + 1 - i
      | Inr (Inr (n, dt, status, t, i, v, al, be, dp)) \<Rightarrow> n + 1 - i]",
    goal_cases)
  case 1
  show ?case by simp
next
  case 2
  show ?case by simp
next
  case 3
  show ?case by simp
next
  case 4
  then show ?case by simp
next
  case 5
  then show ?case using unused_from_step by (simp del: push_bit_of_1)
next
  case 6
  then show ?case by simp
next
  case 7
  then show ?case by simp
next
  case 8
  then show ?case using unused_from_step by (simp del: push_bit_of_1)
next
  case 9
  then show ?case by simp
qed

text \<open>
  \<^verbatim>\<open>canIWin\<close>: builds \<^verbatim>\<open>allUsed\<close> and the empty table, and asks whether the root value
  is 1. A \<^verbatim>\<open>maxChoosableInteger\<close> below 1 gives the same empty ranges as 0.
\<close>

definition canIWin :: "nat \<Rightarrow> int \<Rightarrow> bool option" where
  "canIWin maxChoosableInteger desiredTotal =
     (case minimax maxChoosableInteger desiredTotal 0 0 True (Fin (- 1)) (Fin 1) init_dp of
        None \<Rightarrow> None
      | Some (v, dp) \<Rightarrow> Some (v = Fin 1))"

section \<open>The number game: concrete runs\<close>

lemma allUsed_1: "allUsed 1 = 2"
  by code_simp

lemma allUsed_10: "allUsed 10 = 2046"
  by code_simp

lemma root_value_10_11:
  "\<exists>dp. minimax 10 11 0 0 True (Fin (- 1)) (Fin 1) init_dp = Some (Fin (- 1), dp)"
  by (simp add: allUsed_10 init_dp_def)

text \<open>
  C2, as stated: \<^verbatim>\<open>canIWin(10, 11)\<close> returns True. It does not: whatever the first
  player picks, the second player reaches 11 with the next pick.
\<close>

theorem canIWin_10_11_not_True: "canIWin 10 11 \<noteq> Some True"
proof -
  obtain dp where "minimax 10 11 0 0 True (Fin (- 1)) (Fin 1) init_dp = Some (Fin (- 1), dp)"
    using root_value_10_11 by blast
  then have "canIWin 10 11 = Some (Fin (- 1) = Fin 1)"
    by (simp only: canIWin_def option.case prod.case)
  then show ?thesis
    by simp
qed

text \<open>
  C2, amended: for \<^verbatim>\<open>maxChoosableInteger = 10\<close> and \<^verbatim>\<open>desiredTotal = 11\<close> the root call
  \<^verbatim>\<open>minimax(0, 0, True, -1, 1)\<close> evaluates to -1 and \<^verbatim>\<open>canIWin\<close> returns False.
\<close>

theorem canIWin_10_11_False:
  "map_option fst (minimax 10 11 0 0 True (Fin (- 1)) (Fin 1) init_dp) = Some (Fin (- 1))
   \<and> canIWin 10 11 = Some False"
proof -
  obtain dp where "minimax 10 11 0 0 True (Fin (- 1)) (Fin 1) init_dp = Some (Fin (- 1), dp)"
    using root_value_10_11 by blast
  then have "map_option fst (minimax 10 11 0 0 True (Fin (- 1)) (Fin 1) init_dp) = Some (Fin (- 1))"
    and "canIWin 10 11 = Some (Fin (- 1) = Fin 1)"
    by (simp_all only: canIWin_def option.case prod.case option.map fst_conv)
  then show ?thesis
    by simp
qed

text \<open>
  C4, as stated: on the terminal status the call returns 0 and stores it in the table.
  With \<^verbatim>\<open>maxChoosableInteger = 1\<close> and \<^verbatim>\<open>desiredTotal = 5\<close> the root reaches the terminal
  status 2 with total 1; the call returns 0 and the table is the one it was given, whose
  cell 2 is still empty.
\<close>

theorem terminal_not_stored:
  "minimax 1 5 (allUsed 1) 1 False (Fin (- 1)) (Fin 1) init_dp = Some (Fin 0, init_dp)
   \<and> init_dp (allUsed 1) = None"
  by (simp add: allUsed_1 init_dp_def)

text \<open>
  C4, amended: called on the terminal status (every integer of 1..maxChoosableInteger
  used) whose table cell is empty, \<^verbatim>\<open>minimax\<close> returns the draw value 0 and leaves the
  table unchanged.
\<close>

theorem minimax_terminal:
  "dp (allUsed n) = None \<Longrightarrow>
   minimax n dt (allUsed n) currentTotal isMaxPlayer alpha beta dp = Some (Fin 0, dp)"
  by simp

theorem minimax_terminal_witness:
  "init_dp (allUsed 1) = None
   \<and> minimax 1 5 (allUsed 1) 1 False (Fin (- 1)) (Fin 1) init_dp = Some (Fin 0, init_dp)"
proof -
  have h: "init_dp (allUsed 1) = None"
    by (simp add: init_dp_def)
  show ?thesis
    using h minimax_terminal [of init_dp 1 5 1 False "Fin (- 1)" "Fin 1"] by blast
qed

end
